theory Spec2Isabelle
  imports Main "HOL-Library.AList"
begin

section \<open>Python string primitives used by icso.py\<close>

text \<open>
  Strings are lists of characters. The model covers ASCII text: the character classes
  below are Python's \<^verbatim>\<open>str.isspace\<close>, \<^verbatim>\<open>str.lower\<close>, \<^verbatim>\<open>\w\<close> and \<^verbatim>\<open>\d\<close> restricted to
  code points below 128.
\<close>

datatype py_error =
    IndexError | KeyError | TypeError | AttributeError | FileNotFoundError | RequestException

definition is_space :: "char \<Rightarrow> bool" where
  "is_space c = (c \<in> set [CHR 0x09, CHR 0x0A, CHR 0x0B, CHR 0x0C, CHR 0x0D,
                            CHR 0x1C, CHR 0x1D, CHR 0x1E, CHR 0x1F, CHR '' ''])"

definition is_digit :: "char \<Rightarrow> bool" where
  "is_digit c = (c \<in> set ''0123456789'')"

definition is_word :: "char \<Rightarrow> bool" where
  "is_word c = (c \<in> set ''abcdefghijklmnopqrstuvwxyzABCDEFGHIJKLMNOPQRSTUVWXYZ0123456789_'')"

definition lower_char :: "char \<Rightarrow> char" where
  "lower_char c =
     (case map_of (zip ''ABCDEFGHIJKLMNOPQRSTUVWXYZ'' ''abcdefghijklmnopqrstuvwxyz'') c of
        None \<Rightarrow> c
      | Some l \<Rightarrow> l)"

text \<open>\<^verbatim>\<open>s.strip()\<close>: leading and trailing whitespace removed.\<close>

definition strip :: "string \<Rightarrow> string" where
  "strip s = rev (dropWhile is_space (rev (dropWhile is_space s)))"

text \<open>\<^verbatim>\<open>s.lower()\<close>\<close>

definition lower :: "string \<Rightarrow> string" where
  "lower s = map lower_char s"

text \<open>
  \<^verbatim>\<open>s.replace(old, new)\<close> for a non-empty \<open>old\<close>: the occurrences are found from left
  to right and do not overlap.
\<close>

function str_replace :: "string \<Rightarrow> string \<Rightarrow> string \<Rightarrow> string" where
  "str_replace old new [] = []"
| "str_replace old new (c # cs) =
     (if old \<noteq> [] \<and> take (length old) (c # cs) = old
      then new @ str_replace old new (drop (length old) (c # cs))
      else c # str_replace old new cs)"
  by pat_completeness auto
termination
  by (relation "measure (\<lambda>(old, new, s). length s)") auto

text \<open>\<^verbatim>\<open>sub in s\<close> on strings.\<close>

fun str_contains :: "string \<Rightarrow> string \<Rightarrow> bool" where
  "str_contains sub [] = (sub = [])"
| "str_contains sub (c # cs) = (take (length sub) (c # cs) = sub \<or> str_contains sub cs)"

definition endswith :: "string \<Rightarrow> string \<Rightarrow> bool" where
  "endswith s suffix = (length suffix \<le> length s \<and> drop (length s - length suffix) s = suffix)"

text \<open>
  \<^verbatim>\<open>re.sub("_$|_yyyy$", "", s)\<close>. Both alternatives are anchored by \<^verbatim>\<open>$\<close>, which matches
  at the end of the string and just before a newline that ends the string; so at most
  one match exists, and it is the suffix \<^verbatim>\<open>_\<close> or \<^verbatim>\<open>_yyyy\<close> of the string without that
  final newline.
\<close>

definition drop_suffix :: "string \<Rightarrow> string" where
  "drop_suffix s =
     (if endswith s ''_yyyy'' then take (length s - 5) s
      else if endswith s ''_'' then take (length s - 1) s
      else s)"

definition sub_trailing :: "string \<Rightarrow> string" where
  "sub_trailing s =
     (if endswith s [CHR 0x0A] then drop_suffix (take (length s - 1) s) @ [CHR 0x0A]
      else drop_suffix s)"

section \<open>Key and value cleaning\<close>

definition faux_contact_headers :: "string list" where
  "faux_contact_headers = [''headquarters_address'', ''preferred_mailing_address'']"

definition contact_keys :: "string list" where
  "contact_keys = [''address'', ''phone'', ''fax'', ''email'']"

definition list_only_fields :: "string list" where
  "list_only_fields = [''languages'', ''millennium_development_goals'',
                       ''funding_structure'', ''country_geographical_area_of_activity'']"

text \<open>
  The first two statements of \<^verbatim>\<open>clean_key\<close>: lowercase the stripped label, put \<^verbatim>\<open>_\<close> for
  every space, delete every \<^verbatim>\<open>\W\<close> character, replace \<^verbatim>\<open>__\<close> by \<^verbatim>\<open>_\<close> and delete a
  trailing \<^verbatim>\<open>_\<close> or \<^verbatim>\<open>_yyyy\<close>.
\<close>

definition key_clean :: "string \<Rightarrow> string" where
  "key_clean cell =
     sub_trailing (str_replace ''__'' ''_''
       (filter is_word (str_replace '' '' ''_'' (lower (strip cell)))))"

text \<open>
  \<^verbatim>\<open>clean_key(cell, contact_type)\<close>. The contact type is a Python string or \<^verbatim>\<open>None\<close>
  (as \<^verbatim>\<open>clean_activity_list\<close> passes it); \<^verbatim>\<open>None + '_'\<close> raises \<^verbatim>\<open>TypeError\<close>.
\<close>

definition clean_key :: "string \<Rightarrow> string option \<Rightarrow> py_error + string" where
  "clean_key cell contact_type =
     (if key_clean cell \<in> set contact_keys then
        (case contact_type of
           None \<Rightarrow> Inl TypeError
         | Some t \<Rightarrow> Inr (t @ ''_'' @ key_clean cell))
      else Inr (key_clean cell))"

text \<open>\<^verbatim>\<open>clean_value_text(cell)\<close>\<close>

definition clean_value_text :: "string \<Rightarrow> string" where
  "clean_value_text cell =
     str_replace [CHR 0x0A, CHR 0x0A] [CHR 0x0A] (str_replace [CHR 0x09] [] (strip cell))"

section \<open>Detail documents as BeautifulSoup presents them\<close>

text \<open>
  The HTML parser is outside the program; a document is given by what the program's
  calls return on it: \<^verbatim>\<open>select('form')\<close>, \<^verbatim>\<open>find_all('table')\<close>, \<^verbatim>\<open>find_all('tr')\<close>,
  \<^verbatim>\<open>find_all(["th", "td"])\<close>, and for a cell its \<^verbatim>\<open>.text\<close> and
  \<^verbatim>\<open>find_all(['b', 'li'])\<close> (of which \<^verbatim>\<open>find_all('li')\<close> is the sublist of \<^verbatim>\<open>li\<close> tags).
\<close>

datatype tag = B | LI

record element =
  el_name :: tag
  el_text :: string

record cell =
  cell_text :: string
  cell_elements :: "element list"

type_synonym row = "cell list"
type_synonym table = "row list"
type_synonym form = "table list"

text \<open>The response of \<^verbatim>\<open>requests.get\<close>: its status and the forms of its parsed text.\<close>

record response =
  status_code :: nat
  forms :: "form list"

text \<open>The values stored in an organization: a string, a list of strings or a dict of lists.\<close>

datatype field_value =
    Scalar string
  | ListValue "string list"
  | SectionedList "(string \<times> string list) list"

text \<open>
  A Python dict is an association list with distinct keys in insertion order:
  \<^verbatim>\<open>d[k] = v\<close> is \<open>AList.update k v d\<close> and a lookup is \<open>map_of d k\<close>.
\<close>

type_synonym organization = "(string \<times> field_value) list"

definition clean_value_list :: "cell \<Rightarrow> string list" where
  "clean_value_list c =
     map (\<lambda>li. clean_value_text (el_text li)) (filter (\<lambda>e. el_name e = LI) (cell_elements c))"

text \<open>
  The loop of \<^verbatim>\<open>clean_activity_list\<close> over the elements, with its two variables.
  \<^verbatim>\<open>activities[area_key].append(...)\<close> raises \<^verbatim>\<open>KeyError\<close> when the key is absent.
\<close>

fun activity_loop ::
  "element list \<Rightarrow> string \<Rightarrow> (string \<times> string list) list
     \<Rightarrow> py_error + (string \<times> string list) list" where
  "activity_loop [] area_key activities = Inr activities"
| "activity_loop (e # es) area_key activities =
     (if el_name e = B then
        (case clean_key (el_text e) None of
           Inl err \<Rightarrow> Inl err
         | Inr k \<Rightarrow> activity_loop es k (AList.update k [] activities))
      else
        (case map_of activities area_key of
           None \<Rightarrow> Inl KeyError
         | Some items \<Rightarrow>
             activity_loop es area_key
               (AList.update area_key (items @ [clean_value_text (el_text e)]) activities)))"

definition clean_activity_list :: "cell \<Rightarrow> py_error + (string \<times> string list) list" where
  "clean_activity_list c = activity_loop (cell_elements c) [] []"

text \<open>
  The body of the loop over the rows of a table in \<^verbatim>\<open>get_parse_org\<close>: it returns the
  contact type and the organization as the row leaves them.
\<close>

definition parse_row :: "row \<Rightarrow> string \<Rightarrow> organization \<Rightarrow> py_error + (string \<times> organization)" where
  "parse_row cells_raw contact_type organization =
     (case cells_raw of
        [key_raw, value_raw] \<Rightarrow>
          (let contact_type' =
                 (if cell_text key_raw = ''Preferred mailing address'' then ''preferred''
                  else contact_type)
           in case clean_key (cell_text key_raw) (Some contact_type') of
                Inl err \<Rightarrow> Inl err
              | Inr key \<Rightarrow>
                  if key \<notin> set faux_contact_headers then
                    if key \<in> set list_only_fields then
                      Inr (contact_type',
                           AList.update key (ListValue (clean_value_list value_raw)) organization)
                    else if key = ''areas_of_expertise_fields_of_activity'' then
                      (case clean_activity_list value_raw of
                         Inl err \<Rightarrow> Inl err
                       | Inr activities \<Rightarrow>
                           Inr (contact_type',
                                AList.update key (SectionedList activities) organization))
                    else
                      Inr (contact_type',
                           AList.update key (Scalar (clean_value_text (cell_text value_raw)))
                             organization)
                  else Inr (contact_type', organization))
      | _ \<Rightarrow> Inr (contact_type, organization))"

fun parse_rows :: "row list \<Rightarrow> string \<Rightarrow> organization \<Rightarrow> py_error + (string \<times> organization)" where
  "parse_rows [] contact_type organization = Inr (contact_type, organization)"
| "parse_rows (r # rs) contact_type organization =
     (case parse_row r contact_type organization of
        Inl err \<Rightarrow> Inl err
      | Inr (contact_type', organization') \<Rightarrow> parse_rows rs contact_type' organization')"

text \<open>The loop over the tables: \<^verbatim>\<open>contact_type = 'hq'\<close> is assigned for every table.\<close>

fun parse_tables :: "table list \<Rightarrow> organization \<Rightarrow> py_error + organization" where
  "parse_tables [] organization = Inr organization"
| "parse_tables (t # ts) organization =
     (case parse_rows t ''hq'' organization of
        Inl err \<Rightarrow> Inl err
      | Inr (contact_type, organization') \<Rightarrow> parse_tables ts organization')"

section \<open>The two databases, the network and the crawl\<close>

record identity =
  org_name :: string
  org_id :: string

text \<open>
  What the run does to the outside: the short pause before a request, the long break,
  the request for an organization's page, and the logged decision to skip one.
\<close>

datatype event = Pause | LongBreak | Fetch string | Skip string

record world =
  org_ids :: "identity list"
  orgs_full :: "organization list"
  trace :: "event list"

text \<open>
  The network answers a request for an id with a response, or \<^verbatim>\<open>requests.get\<close> raises
  (\<open>None\<close>).
\<close>

type_synonym network = "string \<Rightarrow> response option"

definition long_wait_gap :: nat where
  "long_wait_gap = 100"

text \<open>\<^verbatim>\<open>orgs_full.search(q.org_id == v)\<close>: the documents whose \<^verbatim>\<open>org_id\<close> field equals the string.\<close>

definition search :: "organization list \<Rightarrow> string \<Rightarrow> organization list" where
  "search db v = filter (\<lambda>d. map_of d ''org_id'' = Some (Scalar v)) db"

definition get_parse_org :: "network \<Rightarrow> identity \<Rightarrow> nat \<Rightarrow> world \<Rightarrow> py_error option \<times> world" where
  "get_parse_org net org i w =
     (let w1 = (if i > 0 then w\<lparr>trace := trace w @ [Pause]\<rparr> else w);
          w2 = w1\<lparr>trace := trace w1 @ [Fetch (org_id org)]\<rparr>
      in case net (org_id org) of
           None \<Rightarrow> (Some RequestException, w2)
         | Some r \<Rightarrow>
             (case forms r of
                [] \<Rightarrow> (Some IndexError, w2)
              | raw0 # _ \<Rightarrow>
                  (case parse_tables raw0 [(''org_id'', Scalar (org_id org))] of
                     Inl err \<Rightarrow> (Some err, w2)
                   | Inr organization \<Rightarrow>
                       (None, w2\<lparr>orgs_full := orgs_full w2 @ [organization]\<rparr>))))"

subsection \<open>The listing page\<close>

text \<open>
  The saved listing is given by \<^verbatim>\<open>select('#content table.result')\<close>; a table by its
  \<^verbatim>\<open>tr\<close> rows, a row by its \<^verbatim>\<open>td\<close> cells, and a cell by the result of \<^verbatim>\<open>find('a')\<close>.
\<close>

record link =
  href :: "string option"
  link_text :: string

type_synonym list_row = "link option list"
type_synonym list_table = "list_row list"
type_synonym list_page = "list_table list"

text \<open>
  \<^verbatim>\<open>re.search(r"profileCode=(\d+)", s)\<close>: the leftmost place where the literal is followed
  by a digit, and the longest run of digits there; \<open>None\<close> when there is no match.
\<close>

fun search_profileCode :: "string \<Rightarrow> string option" where
  "search_profileCode [] = None"
| "search_profileCode (c # cs) =
     (if take 12 (c # cs) = ''profileCode='' \<and> takeWhile is_digit (drop 12 (c # cs)) \<noteq> []
      then Some (takeWhile is_digit (drop 12 (c # cs)))
      else search_profileCode cs)"

fun all_orgs_loop :: "list_row list \<Rightarrow> identity list \<Rightarrow> py_error + identity list" where
  "all_orgs_loop [] all_orgs = Inr all_orgs"
| "all_orgs_loop (first_column # rows) all_orgs =
     (case first_column of
        [] \<Rightarrow> all_orgs_loop rows all_orgs
      | None # _ \<Rightarrow> all_orgs_loop rows all_orgs
      | Some a # _ \<Rightarrow>
          (case href a of
             None \<Rightarrow> Inl TypeError
           | Some h \<Rightarrow>
               if str_contains ''showProfileDetail'' h then
                 (case search_profileCode h of
                    None \<Rightarrow> Inl AttributeError
                  | Some profile_id \<Rightarrow>
                      all_orgs_loop rows
                        (all_orgs @ [\<lparr>org_name = link_text a, org_id = profile_id\<rparr>]))
               else all_orgs_loop rows all_orgs))"

text \<open>\<^verbatim>\<open>generate_list(list_html)\<close>; the file may be missing (\<open>None\<close>).\<close>

definition generate_list :: "list_page option \<Rightarrow> world \<Rightarrow> py_error option \<times> world" where
  "generate_list list_html w =
     (case list_html of
        None \<Rightarrow> (Some FileNotFoundError, w)
      | Some full_list_raw \<Rightarrow>
          (case full_list_raw of
             [] \<Rightarrow> (Some IndexError, w)
           | full_list_table # _ \<Rightarrow>
               (case all_orgs_loop full_list_table [] of
                  Inl err \<Rightarrow> (Some err, w)
                | Inr all_orgs \<Rightarrow> (None, w\<lparr>org_ids := org_ids w @ all_orgs\<rparr>))))"

subsection \<open>The main loop\<close>

text \<open>
  The loop of \<^verbatim>\<open>__main__\<close> over \<^verbatim>\<open>enumerate(...)\<close>, from index \<open>i\<close>. An exception ends it
  (\<open>Some\<close>); \<open>None\<close> is the end of the list.
\<close>

fun crawl :: "network \<Rightarrow> nat \<Rightarrow> identity list \<Rightarrow> world \<Rightarrow> py_error option \<times> world" where
  "crawl net i [] w = (None, w)"
| "crawl net i (org # rest) w =
     (let w1 = (if i > 0 \<and> i mod long_wait_gap = 0 then w\<lparr>trace := trace w @ [LongBreak]\<rparr>
                else w)
      in if length (search (orgs_full w1) (org_id org)) = 0 then
           (case get_parse_org net org i w1 of
              (Some err, w2) \<Rightarrow> (Some err, w2)
            | (None, w2) \<Rightarrow> crawl net (Suc i) rest w2)
         else crawl net (Suc i) rest (w1\<lparr>trace := trace w1 @ [Skip (org_id org)]\<rparr>))"

text \<open>
  \<^verbatim>\<open>__main__\<close>: seed the identities when there are none, then loop over
  \<^verbatim>\<open>org_ids.all()[0:2]\<close>. The result \<open>None\<close> is the run that logs "All done!".
\<close>

definition main :: "list_page option \<Rightarrow> network \<Rightarrow> world \<Rightarrow> py_error option \<times> world" where
  "main list_html net w =
     (case (if length (org_ids w) = 0 then generate_list list_html w else (None, w)) of
        (Some err, w1) \<Rightarrow> (Some err, w1)
      | (None, w1) \<Rightarrow> crawl net 0 (take 2 (org_ids w1)) w1)"

subsection \<open>Cells without markup\<close>

text \<open>A cell that holds plain text only, as most value cells of a profile page do.\<close>

definition text_cell :: "string \<Rightarrow> cell" where
  "text_cell s = \<lparr>cell_text = s, cell_elements = []\<rparr>"

section \<open>Auxiliary facts about the loops\<close>

lemma parse_row_contact_type:
  "parse_row r ct organization = Inr (ct', organization') \<Longrightarrow>
   ct' = (if length r = 2 \<and> cell_text (hd r) = ''Preferred mailing address''
          then ''preferred'' else ct)"
  by (auto simp: parse_row_def Let_def split: list.splits sum.splits if_splits)

lemma parse_rows_contact_type:
  "parse_rows rs ct organization = Inr (ct', organization') \<Longrightarrow>
   ct' = (if \<exists>r\<in>set rs. length r = 2 \<and> cell_text (hd r) = ''Preferred mailing address''
          then ''preferred'' else ct)"
proof (induction rs arbitrary: ct organization)
  case Nil
  then show ?case by simp
next
  case (Cons r rs)
  from Cons.prems obtain ct1 org1 where
    step: "parse_row r ct organization = Inr (ct1, org1)" and
    rest: "parse_rows rs ct1 org1 = Inr (ct', organization')"
    by (auto split: sum.splits)
  from parse_row_contact_type [OF step] Cons.IH [OF rest] show ?case
    by auto
qed

lemma parse_rows_append:
  "parse_rows (xs @ ys) ct organization =
     (case parse_rows xs ct organization of
        Inl err \<Rightarrow> Inl err
      | Inr (ct', organization') \<Rightarrow> parse_rows ys ct' organization')"
  by (induction xs arbitrary: ct organization) (auto split: sum.splits)

lemma parse_tables_append:
  "parse_tables (ts @ us) organization =
     (case parse_tables ts organization of
        Inl err \<Rightarrow> Inl err
      | Inr organization' \<Rightarrow> parse_tables us organization')"
  by (induction ts arbitrary: organization) (auto split: sum.splits)

lemma key_clean_preferred_header:
  "key_clean ''Preferred mailing address'' = ''preferred_mailing_address''"
  by code_simp

lemma contact_key_row:
  assumes "key_clean (cell_text k) \<in> set contact_keys"
      and "ct = ''hq'' \<or> ct = ''preferred''"
  shows "parse_row [k, v] ct organization =
           Inr (ct, AList.update (ct @ ''_'' @ key_clean (cell_text k))
                      (Scalar (clean_value_text (cell_text v))) organization)"
proof -
  have nohdr: "cell_text k \<noteq> ''Preferred mailing address''"
    using assms(1) key_clean_preferred_header by (auto simp: contact_keys_def)
  show ?thesis
    using assms nohdr
    by (auto simp: parse_row_def clean_key_def contact_keys_def faux_contact_headers_def
          list_only_fields_def)
qed

lemma crawl_append:
  "crawl net i (xs @ ys) w =
     (case crawl net i xs w of
        (Some err, w') \<Rightarrow> (Some err, w')
      | (None, w') \<Rightarrow> crawl net (i + length xs) ys w')"
proof (induction xs arbitrary: i w)
  case Nil
  show ?case by simp
next
  case (Cons org xs)
  define w1 where "w1 = (if i > 0 \<and> i mod long_wait_gap = 0
                         then w\<lparr>trace := trace w @ [LongBreak]\<rparr> else w)"
  have step: "crawl net i (org # zs) w =
     (if length (search (orgs_full w1) (org_id org)) = 0 then
        (case get_parse_org net org i w1 of
           (Some err, w2) \<Rightarrow> (Some err, w2)
         | (None, w2) \<Rightarrow> crawl net (Suc i) zs w2)
      else crawl net (Suc i) zs (w1\<lparr>trace := trace w1 @ [Skip (org_id org)]\<rparr>))" for zs
    unfolding w1_def by (simp only: crawl.simps Let_def)
  have len: "i + length (org # xs) = Suc i + length xs" by simp
  have "crawl net i (org # (xs @ ys)) w =
     (case crawl net i (org # xs) w of
        (Some err, w') \<Rightarrow> (Some err, w')
      | (None, w') \<Rightarrow> crawl net (Suc i + length xs) ys w')"
  proof (cases "length (search (orgs_full w1) (org_id org)) = 0")
    case False
    then show ?thesis
      using Cons.IH [of "Suc i" "w1\<lparr>trace := trace w1 @ [Skip (org_id org)]\<rparr>"]
      by (simp add: step del: crawl.simps)
  next
    case True
    obtain r w2 where g: "get_parse_org net org i w1 = (r, w2)"
      by (cases "get_parse_org net org i w1")
    show ?thesis
    proof (cases r)
      case None
      with True g Cons.IH [of "Suc i" w2] show ?thesis
        by (simp add: step del: crawl.simps)
    next
      case (Some err)
      with True g show ?thesis
        by (simp add: step del: crawl.simps)
    qed
  qed
  then show ?case unfolding append_Cons len .
qed

lemma parse_row_keeps_faux_absent:
  assumes "parse_row r ct organization = Inr (ct', organization')"
      and "key \<in> set faux_contact_headers"
      and "map_of organization key = None"
  shows "map_of organization' key = None"
proof (cases r)
  case Nil
  with assms show ?thesis by (simp add: parse_row_def)
next
  case (Cons key_raw r1)
  show ?thesis
  proof (cases r1)
    case Nil
    with Cons assms show ?thesis by (simp add: parse_row_def)
  next
    case c2: (Cons value_raw r2)
    show ?thesis
    proof (cases r2)
      case (Cons x r3)
      with c2 \<open>r = key_raw # r1\<close> assms show ?thesis by (simp add: parse_row_def)
    next
      case Nil
      with c2 \<open>r = key_raw # r1\<close> have r: "r = [key_raw, value_raw]" by simp
      show ?thesis
        using assms unfolding r parse_row_def Let_def
        by (auto simp: update_conv' split: sum.splits if_splits)
    qed
  qed
qed

lemma parse_rows_keep_faux_absent:
  "parse_rows rs ct organization = Inr (ct', organization') \<Longrightarrow>
   key \<in> set faux_contact_headers \<Longrightarrow> map_of organization key = None \<Longrightarrow>
   map_of organization' key = None"
proof (induction rs arbitrary: ct organization)
  case Nil
  then show ?case by simp
next
  case (Cons r rs)
  from Cons.prems(1) obtain ct1 org1 where
    step: "parse_row r ct organization = Inr (ct1, org1)" and
    rest: "parse_rows rs ct1 org1 = Inr (ct', organization')"
    by (auto split: sum.splits)
  from parse_row_keeps_faux_absent [OF step Cons.prems(2) Cons.prems(3)]
  have "map_of org1 key = None" .
  from Cons.IH [OF rest Cons.prems(2) this] show ?case .
qed

lemma parse_tables_keep_faux_absent:
  "parse_tables ts organization = Inr organization' \<Longrightarrow>
   key \<in> set faux_contact_headers \<Longrightarrow> map_of organization key = None \<Longrightarrow>
   map_of organization' key = None"
proof (induction ts arbitrary: organization)
  case Nil
  then show ?case by simp
next
  case (Cons t ts)
  from Cons.prems(1) obtain ct1 org1 where
    step: "parse_rows t ''hq'' organization = Inr (ct1, org1)" and
    rest: "parse_tables ts org1 = Inr organization'"
    by (auto split: sum.splits)
  from parse_rows_keep_faux_absent [OF step Cons.prems(2) Cons.prems(3)]
  have "map_of org1 key = None" .
  from Cons.IH [OF rest Cons.prems(2) this] show ?case .
qed

lemma activity_list_li_first:
  "cell_elements c = e # es \<Longrightarrow> el_name e = LI \<Longrightarrow> clean_activity_list c = Inl KeyError"
  by (simp add: clean_activity_list_def)

subsection \<open>Resuming a crawl\<close>

text \<open>
  What \<^verbatim>\<open>get_parse_org\<close> does to the state: one request, and one profile appended when
  it ends without exception.
\<close>

lemma get_parse_org_effect:
  assumes "get_parse_org net org i w = (res, w')"
  shows "trace w' = trace w @ (if i > 0 then [Pause] else []) @ [Fetch (org_id org)]"
    and "org_ids w' = org_ids w"
    and "res \<noteq> None \<Longrightarrow> orgs_full w' = orgs_full w"
    and "res = None \<Longrightarrow>
           \<exists>r raw0 rest organization.
             net (org_id org) = Some r \<and> forms r = raw0 # rest \<and>
             parse_tables raw0 [(''org_id'', Scalar (org_id org))] = Inr organization \<and>
             orgs_full w' = orgs_full w @ [organization]"
  using assms
  by (auto simp: get_parse_org_def Let_def split: option.splits list.splits sum.splits if_splits)

lemma search_nonempty_iff:
  "search db v \<noteq> [] \<longleftrightarrow> Some (Scalar v) \<in> set (map (\<lambda>d. map_of d ''org_id'') db)"
  by (force simp: search_def filter_empty_conv)

lemma crawl_step:
  "crawl net i (org # zs) w =
     (if length (search (orgs_full w) (org_id org)) = 0 then
        (case get_parse_org net org i
                (if i > 0 \<and> i mod long_wait_gap = 0
                 then w\<lparr>trace := trace w @ [LongBreak]\<rparr> else w) of
           (Some err, w2) \<Rightarrow> (Some err, w2)
         | (None, w2) \<Rightarrow> crawl net (Suc i) zs w2)
      else crawl net (Suc i) zs
             (w\<lparr>trace := trace w @ (if i > 0 \<and> i mod long_wait_gap = 0 then [LongBreak] else [])
                               @ [Skip (org_id org)]\<rparr>))"
  by (simp add: Let_def)

lemma crawl_distinct:
  assumes keeps: "\<forall>v r raw0 rest organization.
            net v = Some r \<longrightarrow> forms r = raw0 # rest \<longrightarrow>
            parse_tables raw0 [(''org_id'', Scalar v)] = Inr organization \<longrightarrow>
            map_of organization ''org_id'' = Some (Scalar v)"
  shows "distinct (map (\<lambda>d. map_of d ''org_id'') (orgs_full w)) \<Longrightarrow>
         crawl net i orgs w = (res, w') \<Longrightarrow>
         distinct (map (\<lambda>d. map_of d ''org_id'') (orgs_full w'))"
proof (induction orgs arbitrary: i w)
  case Nil
  then show ?case by simp
next
  case (Cons org orgs)
  define w1 where "w1 = (if i > 0 \<and> i mod long_wait_gap = 0
                         then w\<lparr>trace := trace w @ [LongBreak]\<rparr> else w)"
  have o1: "orgs_full w1 = orgs_full w" by (simp add: w1_def)
  show ?case
  proof (cases "length (search (orgs_full w) (org_id org)) = 0")
    case False
    with Cons.prems(2) have "crawl net (Suc i) orgs
             (w\<lparr>trace := trace w @ (if i > 0 \<and> i mod long_wait_gap = 0 then [LongBreak] else [])
                               @ [Skip (org_id org)]\<rparr>) = (res, w')"
      by (simp only: crawl_step if_False)
    from Cons.IH [OF _ this] Cons.prems(1) show ?thesis by simp
  next
    case True
    obtain r w2 where g: "get_parse_org net org i w1 = (r, w2)"
      by (cases "get_parse_org net org i w1")
    show ?thesis
    proof (cases r)
      case (Some err)
      with True g Cons.prems(2) have "w' = w2"
        by (simp add: crawl_step w1_def del: crawl.simps)
      moreover from get_parse_org_effect(3) [OF g] Some have "orgs_full w2 = orgs_full w1"
        by simp
      ultimately show ?thesis using Cons.prems(1) o1 by simp
    next
      case None
      with True g Cons.prems(2) have rest: "crawl net (Suc i) orgs w2 = (res, w')"
        by (simp add: crawl_step w1_def del: crawl.simps)
      from get_parse_org_effect(4) [OF g None] obtain rr raw0 rs organization where
        n: "net (org_id org) = Some rr" and f: "forms rr = raw0 # rs" and
        p: "parse_tables raw0 [(''org_id'', Scalar (org_id org))] = Inr organization" and
        o: "orgs_full w2 = orgs_full w1 @ [organization]"
        by blast
      from keeps [rule_format, OF n f p] have k: "map_of organization ''org_id'' = Some (Scalar (org_id org))" .
      from True have "Some (Scalar (org_id org)) \<notin> set (map (\<lambda>d. map_of d ''org_id'') (orgs_full w))"
        using search_nonempty_iff [of "orgs_full w" "org_id org"] by simp
      with Cons.prems(1) o o1 k
      have "distinct (map (\<lambda>d. map_of d ''org_id'') (orgs_full w2))"
        by simp
      from Cons.IH [OF this rest] show ?thesis .
    qed
  qed
qed

lemma search_append_nonempty:
  "search db v \<noteq> [] \<Longrightarrow> search (db @ db2) v \<noteq> []"
  by (simp add: search_def)

lemma crawl_no_refetch:
  "search (orgs_full w) v \<noteq> [] \<Longrightarrow> crawl net i orgs w = (res, w') \<Longrightarrow>
   \<exists>evs. trace w' = trace w @ evs \<and> Fetch v \<notin> set evs \<and> search (orgs_full w') v \<noteq> []"
proof (induction orgs arbitrary: i w)
  case Nil
  then show ?case by simp
next
  case (Cons org orgs)
  define w1 where "w1 = (if i > 0 \<and> i mod long_wait_gap = 0
                         then w\<lparr>trace := trace w @ [LongBreak]\<rparr> else w)"
  have o1: "orgs_full w1 = orgs_full w" by (simp add: w1_def)
  have t1: "trace w1 = trace w @ (if i > 0 \<and> i mod long_wait_gap = 0 then [LongBreak] else [])"
    by (simp add: w1_def)
  show ?case
  proof (cases "length (search (orgs_full w) (org_id org)) = 0")
    case False
    define ws where "ws = w\<lparr>trace := trace w @ (if i > 0 \<and> i mod long_wait_gap = 0 then [LongBreak] else [])
                               @ [Skip (org_id org)]\<rparr>"
    from False Cons.prems(2) have rest: "crawl net (Suc i) orgs ws = (res, w')"
      unfolding ws_def by (simp only: crawl_step if_False)
    have "search (orgs_full ws) v \<noteq> []" using Cons.prems(1) by (simp add: ws_def)
    from Cons.IH [OF this rest] obtain evs where
      "trace w' = trace ws @ evs" "Fetch v \<notin> set evs" "search (orgs_full w') v \<noteq> []"
      by blast
    then show ?thesis
      by (intro exI [of _ "(if i > 0 \<and> i mod long_wait_gap = 0 then [LongBreak] else [])
                               @ [Skip (org_id org)] @ evs"]) (simp add: ws_def)
  next
    case True
    with Cons.prems(1) have ne: "org_id org \<noteq> v" by auto
    obtain r w2 where g: "get_parse_org net org i w1 = (r, w2)"
      by (cases "get_parse_org net org i w1")
    have t2: "trace w2 = trace w1 @ (if i > 0 then [Pause] else []) @ [Fetch (org_id org)]"
      using get_parse_org_effect(1) [OF g] .
    show ?thesis
    proof (cases r)
      case (Some err)
      with True g Cons.prems(2) have "w' = w2"
        by (simp add: crawl_step w1_def del: crawl.simps)
      moreover from get_parse_org_effect(3) [OF g] Some have "orgs_full w2 = orgs_full w1"
        by simp
      ultimately show ?thesis using Cons.prems(1) o1 t1 t2 ne
        by (intro exI [of _ "(if i > 0 \<and> i mod long_wait_gap = 0 then [LongBreak] else [])
               @ (if i > 0 then [Pause] else []) @ [Fetch (org_id org)]"]) simp
    next
      case None
      with True g Cons.prems(2) have rest: "crawl net (Suc i) orgs w2 = (res, w')"
        by (simp add: crawl_step w1_def del: crawl.simps)
      from get_parse_org_effect(4) [OF g None] obtain organization where
        o: "orgs_full w2 = orgs_full w1 @ [organization]"
        by blast
      with Cons.prems(1) o1 have "search (orgs_full w2) v \<noteq> []"
        by (simp add: search_append_nonempty)
      from Cons.IH [OF this rest] obtain evs where
        "trace w' = trace w2 @ evs" "Fetch v \<notin> set evs" "search (orgs_full w') v \<noteq> []"
        by blast
      then show ?thesis using t1 t2 ne
        by (intro exI [of _ "(if i > 0 \<and> i mod long_wait_gap = 0 then [LongBreak] else [])
               @ (if i > 0 then [Pause] else []) @ [Fetch (org_id org)] @ evs"]) simp
    qed
  qed
qed

lemma generate_list_effect:
  "generate_list list_html w = (res, w') \<Longrightarrow>
   orgs_full w' = orgs_full w \<and> trace w' = trace w"
  by (auto simp: generate_list_def split: option.splits list.splits sum.splits)

lemma main_as_crawl:
  assumes "main list_html net w = (res, w')"
  shows "(orgs_full w' = orgs_full w \<and> trace w' = trace w) \<or>
         (\<exists>w1 orgs. orgs_full w1 = orgs_full w \<and> trace w1 = trace w \<and>
                     crawl net 0 orgs w1 = (res, w'))"
proof (cases "length (org_ids w) = 0")
  case False
  with assms show ?thesis by (auto simp: main_def)
next
  case True
  obtain r1 w1 where g: "generate_list list_html w = (r1, w1)"
    by (cases "generate_list list_html w")
  from generate_list_effect [OF g] have e: "orgs_full w1 = orgs_full w \<and> trace w1 = trace w" .
  show ?thesis
  proof (cases r1)
    case None
    with True g assms have "crawl net 0 (take 2 (org_ids w1)) w1 = (res, w')"
      by (simp add: main_def)
    with e show ?thesis by blast
  next
    case (Some err)
    with True g assms have "w' = w1" by (simp add: main_def)
    with e show ?thesis by simp
  qed
qed

text \<open>
  Two runs of \<^verbatim>\<open>__main__\<close> against the same databases and network, when no page that
  the network serves has a row that overwrites \<^verbatim>\<open>org_id\<close>: the ids of the stored
  profiles stay distinct, and the second run does not request an entity that has a
  profile after the first.
\<close>

lemma main_idempotent_without_org_id_rows:
  assumes keeps: "\<forall>v r raw0 rest organization.
            net v = Some r \<longrightarrow> forms r = raw0 # rest \<longrightarrow>
            parse_tables raw0 [(''org_id'', Scalar v)] = Inr organization \<longrightarrow>
            map_of organization ''org_id'' = Some (Scalar v)"
      and d0: "distinct (map (\<lambda>d. map_of d ''org_id'') (orgs_full w0))"
      and run1: "main list_html net w0 = (res1, w1)"
      and run2: "main list_html net w1 = (res2, w2)"
  shows "distinct (map (\<lambda>d. map_of d ''org_id'') (orgs_full w2))"
    and "search (orgs_full w1) v \<noteq> [] \<Longrightarrow>
         \<exists>evs. trace w2 = trace w1 @ evs \<and> Fetch v \<notin> set evs"
proof -
  have step: "distinct (map (\<lambda>d. map_of d ''org_id'') (orgs_full wb))"
    if "distinct (map (\<lambda>d. map_of d ''org_id'') (orgs_full wa))"
      and "main list_html net wa = (res, wb)" for wa wb res
  proof -
    from main_as_crawl [OF that(2)] show ?thesis
    proof
      assume "orgs_full wb = orgs_full wa \<and> trace wb = trace wa"
      with that(1) show ?thesis by simp
    next
      assume "\<exists>wc orgs. orgs_full wc = orgs_full wa \<and> trace wc = trace wa \<and>
                     crawl net 0 orgs wc = (res, wb)"
      then obtain wc orgs where c: "orgs_full wc = orgs_full wa"
        "crawl net 0 orgs wc = (res, wb)" by blast
      from that(1) c(1) have "distinct (map (\<lambda>d. map_of d ''org_id'') (orgs_full wc))"
        by simp
      from crawl_distinct [OF keeps this c(2)] show ?thesis .
    qed
  qed
  from step [OF d0 run1] have "distinct (map (\<lambda>d. map_of d ''org_id'') (orgs_full w1))" .
  from step [OF this run2] show "distinct (map (\<lambda>d. map_of d ''org_id'') (orgs_full w2))" .
  show "\<exists>evs. trace w2 = trace w1 @ evs \<and> Fetch v \<notin> set evs"
    if "search (orgs_full w1) v \<noteq> []"
  proof -
    from main_as_crawl [OF run2] show ?thesis
    proof
      assume "orgs_full w2 = orgs_full w1 \<and> trace w2 = trace w1"
      then show ?thesis by simp
    next
      assume "\<exists>wa orgs. orgs_full wa = orgs_full w1 \<and> trace wa = trace w1 \<and>
                     crawl net 0 orgs wa = (res2, w2)"
      then obtain wa orgs where a: "orgs_full wa = orgs_full w1" "trace wa = trace w1"
        "crawl net 0 orgs wa = (res2, w2)" by blast
      from that a(1) have "search (orgs_full wa) v \<noteq> []" by simp
      from crawl_no_refetch [OF this a(3)] a(2) show ?thesis by auto
    qed
  qed
qed

section \<open>Properties\<close>

subsection \<open>The crawl over the identities\<close>

text \<open>
  C1. A run that is not interrupted should visit every entity of the identity
  collection, in order, before it is done. The loop of \<^verbatim>\<open>__main__\<close> runs over
  \<^verbatim>\<open>org_ids.all()[0:2]\<close>: with three identities and a network that answers every
  request with a well-formed page, the run ends normally after the first two; the third
  is neither fetched nor skipped, and has no profile.
\<close>

theorem main_stops_after_two:
  "main None
     (\<lambda>x. Some \<lparr>status_code = 200, forms = [[[[text_cell ''Email'', text_cell ''a@b.org'']]]]\<rparr>)
     \<lparr>org_ids = [\<lparr>org_name = ''A'', org_id = ''1''\<rparr>, \<lparr>org_name = ''B'', org_id = ''2''\<rparr>,
                 \<lparr>org_name = ''C'', org_id = ''3''\<rparr>],
      orgs_full = [], trace = []\<rparr>
   = (None,
      \<lparr>org_ids = [\<lparr>org_name = ''A'', org_id = ''1''\<rparr>, \<lparr>org_name = ''B'', org_id = ''2''\<rparr>,
                  \<lparr>org_name = ''C'', org_id = ''3''\<rparr>],
       orgs_full = [[(''org_id'', Scalar ''1''), (''hq_email'', Scalar ''a@b.org'')],
                    [(''org_id'', Scalar ''2''), (''hq_email'', Scalar ''a@b.org'')]],
       trace = [Fetch ''1'', Pause, Fetch ''2'']\<rparr>)"
  by code_simp

text \<open>
  C2. Two runs against the same databases and the same network should never leave two
  profiles with the same \<^verbatim>\<open>org_id\<close>, and the second run should not fetch an entity that
  is complete. A row whose label cleans to \<^verbatim>\<open>org_id\<close> overwrites the id that
  \<^verbatim>\<open>get_parse_org\<close> stored first: the profile of entity 1 is saved under id 7, the second
  run does not find entity 1, fetches it again and saves a second profile with id 7.
  (Without such a row the property holds: \<open>main_idempotent_without_org_id_rows\<close>.)
\<close>

theorem rerun_stores_org_id_twice:
  "main None
     (\<lambda>x. Some \<lparr>status_code = 200, forms = [[[[text_cell ''Org ID'', text_cell ''7'']]]]\<rparr>)
     \<lparr>org_ids = [\<lparr>org_name = ''A'', org_id = ''1''\<rparr>], orgs_full = [], trace = []\<rparr>
   = (None,
      \<lparr>org_ids = [\<lparr>org_name = ''A'', org_id = ''1''\<rparr>],
       orgs_full = [[(''org_id'', Scalar ''7'')]], trace = [Fetch ''1'']\<rparr>) \<and>
   main None
     (\<lambda>x. Some \<lparr>status_code = 200, forms = [[[[text_cell ''Org ID'', text_cell ''7'']]]]\<rparr>)
     \<lparr>org_ids = [\<lparr>org_name = ''A'', org_id = ''1''\<rparr>],
      orgs_full = [[(''org_id'', Scalar ''7'')]], trace = [Fetch ''1'']\<rparr>
   = (None,
      \<lparr>org_ids = [\<lparr>org_name = ''A'', org_id = ''1''\<rparr>],
       orgs_full = [[(''org_id'', Scalar ''7'')], [(''org_id'', Scalar ''7'')]],
       trace = [Fetch ''1'', Fetch ''1'']\<rparr>)"
  by code_simp

subsection \<open>Fetching\<close>

text \<open>
  C3, as the code has it. \<^verbatim>\<open>get_parse_org\<close> never reads the status of the response: an
  exception raised by the request itself reaches the caller with nothing stored, and
  every response that arrives is processed exactly as a response with status 200 and
  the same body.
\<close>

theorem get_parse_org_ignores_status:
  "get_parse_org net org i w =
     (case net (org_id org) of
        None \<Rightarrow>
          (Some RequestException,
           w\<lparr>trace := trace w @ (if i > 0 then [Pause] else []) @ [Fetch (org_id org)]\<rparr>)
      | Some r \<Rightarrow> get_parse_org (\<lambda>x. Some (r\<lparr>status_code := 200\<rparr>)) org i w)"
  by (simp add: get_parse_org_def Let_def split: option.splits)

text \<open>
  An instance: a response with status 500 is processed as the same page with status 200.
\<close>

theorem get_parse_org_ignores_status_witness:
  "get_parse_org
     (\<lambda>x. Some \<lparr>status_code = 500, forms = [[[[text_cell ''Email'', text_cell ''a@b.org'']]]]\<rparr>)
     \<lparr>org_name = ''A'', org_id = ''1''\<rparr> 0 \<lparr>org_ids = [], orgs_full = [], trace = []\<rparr>
   = get_parse_org
     (\<lambda>x. Some \<lparr>status_code = 200, forms = [[[[text_cell ''Email'', text_cell ''a@b.org'']]]]\<rparr>)
     \<lparr>org_name = ''A'', org_id = ''1''\<rparr> 0 \<lparr>org_ids = [], orgs_full = [], trace = []\<rparr>"
  using get_parse_org_ignores_status
    [of "\<lambda>x. Some \<lparr>status_code = 500,
                     forms = [[[[text_cell ''Email'', text_cell ''a@b.org'']]]]\<rparr>"
        "\<lparr>org_name = ''A'', org_id = ''1''\<rparr>" 0
        "\<lparr>org_ids = [], orgs_full = [], trace = []\<rparr>"]
  by simp

text \<open>
  C3 as stated fails: the body of a response with status 404 is parsed and stored as the
  profile of the entity, and no error reaches the caller.
\<close>

theorem non_success_body_is_stored:
  "get_parse_org
     (\<lambda>x. Some \<lparr>status_code = 404, forms = [[[[text_cell ''Error'', text_cell ''Not Found'']]]]\<rparr>)
     \<lparr>org_name = ''A'', org_id = ''1''\<rparr> 0 \<lparr>org_ids = [], orgs_full = [], trace = []\<rparr>
   = (None,
      \<lparr>org_ids = [],
       orgs_full = [[(''org_id'', Scalar ''1''), (''error'', Scalar ''Not Found'')]],
       trace = [Fetch ''1'']\<rparr>)"
  by code_simp

subsection \<open>The contact context\<close>

text \<open>
  C4, as the code has it. The contact type is set to hq at the start of every table.
  Within a table, a row whose cleaned label is a contact key (address, phone, fax, email)
  is stored under the prefix hq_ when no earlier two-cell row of that table is labelled
  exactly "Preferred mailing address", and under preferred_ otherwise, whatever the
  tables before it held.
\<close>

theorem contact_prefix_per_table:
  assumes "parse_tables ts organization0 = Inr organization1"
      and "parse_rows pre ''hq'' organization1 = Inr (ct, organization2)"
      and "key_clean (cell_text k) \<in> set contact_keys"
  shows "ct = (if \<exists>r\<in>set pre. length r = 2 \<and> cell_text (hd r) = ''Preferred mailing address''
               then ''preferred'' else ''hq'') \<and>
         parse_tables (ts @ [pre @ [[k, v]]]) organization0 =
           Inr (AList.update (ct @ ''_'' @ key_clean (cell_text k))
                  (Scalar (clean_value_text (cell_text v))) organization2)"
proof -
  have ct: "ct = (if \<exists>r\<in>set pre. length r = 2 \<and> cell_text (hd r) = ''Preferred mailing address''
               then ''preferred'' else ''hq'')"
    using parse_rows_contact_type [OF assms(2)] .
  then have "ct = ''hq'' \<or> ct = ''preferred''" by (simp split: if_splits)
  from contact_key_row [OF assms(3) this]
  have "parse_rows (pre @ [[k, v]]) ''hq'' organization1 =
          Inr (ct, AList.update (ct @ ''_'' @ key_clean (cell_text k))
                  (Scalar (clean_value_text (cell_text v))) organization2)"
    by (simp add: parse_rows_append assms(2))
  then have "parse_tables (ts @ [pre @ [[k, v]]]) organization0 =
           Inr (AList.update (ct @ ''_'' @ key_clean (cell_text k))
                  (Scalar (clean_value_text (cell_text v))) organization2)"
    by (simp add: parse_tables_append assms(1))
  with ct show ?thesis by blast
qed

text \<open>
  An instance: the first table holds the header, and the Email row of the second table,
  after a Phone row, is stored under hq_ all the same.
\<close>

theorem contact_prefix_per_table_witness:
  "parse_tables [[[text_cell ''Preferred mailing address'', text_cell '''']]]
     [(''org_id'', Scalar ''1'')] = Inr [(''org_id'', Scalar ''1'')] \<and>
   parse_rows [[text_cell ''Phone'', text_cell ''123'']] ''hq'' [(''org_id'', Scalar ''1'')]
     = Inr (''hq'', [(''org_id'', Scalar ''1''), (''hq_phone'', Scalar ''123'')]) \<and>
   key_clean (cell_text (text_cell ''Email'')) \<in> set contact_keys \<and>
   parse_tables
     ([[[text_cell ''Preferred mailing address'', text_cell '''']]] @
      [[[text_cell ''Phone'', text_cell ''123'']] @
       [[text_cell ''Email'', text_cell ''a@hq.org'']]])
     [(''org_id'', Scalar ''1'')]
   = Inr (AList.update (''hq'' @ ''_'' @ key_clean (cell_text (text_cell ''Email'')))
            (Scalar (clean_value_text (cell_text (text_cell ''a@hq.org''))))
            [(''org_id'', Scalar ''1''), (''hq_phone'', Scalar ''123'')])"
proof -
  have h1: "parse_tables [[[text_cell ''Preferred mailing address'', text_cell '''']]]
     [(''org_id'', Scalar ''1'')] = Inr [(''org_id'', Scalar ''1'')]"
    by code_simp
  have h2: "parse_rows [[text_cell ''Phone'', text_cell ''123'']] ''hq''
     [(''org_id'', Scalar ''1'')]
     = Inr (''hq'', [(''org_id'', Scalar ''1''), (''hq_phone'', Scalar ''123'')])"
    by code_simp
  have h3: "key_clean (cell_text (text_cell ''Email'')) \<in> set contact_keys"
    by code_simp
  from contact_prefix_per_table [OF h1 h2 h3, of "text_cell ''a@hq.org''"]
  have c: "parse_tables
     ([[[text_cell ''Preferred mailing address'', text_cell '''']]] @
      [[[text_cell ''Phone'', text_cell ''123'']] @
       [[text_cell ''Email'', text_cell ''a@hq.org'']]])
     [(''org_id'', Scalar ''1'')]
   = Inr (AList.update (''hq'' @ ''_'' @ key_clean (cell_text (text_cell ''Email'')))
            (Scalar (clean_value_text (cell_text (text_cell ''a@hq.org''))))
            [(''org_id'', Scalar ''1''), (''hq_phone'', Scalar ''123'')])"
    by (rule conjunct2)
  show ?thesis
    by (rule conjI [OF h1 conjI [OF h2 conjI [OF h3 c]]])
qed

text \<open>
  C4 as stated fails twice on one page: the record holds both \<^verbatim>\<open>hq_email\<close> and
  \<^verbatim>\<open>preferred_email\<close>, and the Phone row of the second table is stored as \<^verbatim>\<open>hq_phone\<close>
  although the header was seen in the first table.
\<close>

theorem contact_prefix_counterexample:
  "parse_tables
     [[[text_cell ''Email'', text_cell ''a@hq.org''],
       [text_cell ''Preferred mailing address'', text_cell ''''],
       [text_cell ''Email'', text_cell ''b@pref.org'']],
      [[text_cell ''Phone'', text_cell ''123'']]]
     [(''org_id'', Scalar ''1'')]
   = Inr [(''org_id'', Scalar ''1''), (''hq_email'', Scalar ''a@hq.org''),
          (''preferred_email'', Scalar ''b@pref.org''), (''hq_phone'', Scalar ''123'')]"
  by code_simp

subsection \<open>The list of activities\<close>

text \<open>
  C5. A list item before any heading should be filed under the empty section name.
  \<^verbatim>\<open>clean_activity_list\<close> starts with \<^verbatim>\<open>area_key = ''\<close> and an empty dict, so the
  first append raises \<^verbatim>\<open>KeyError\<close>.
\<close>

theorem activity_list_item_first_raises:
  "clean_activity_list
     \<lparr>cell_text = ''Nutrition'', cell_elements = [\<lparr>el_name = LI, el_text = ''Nutrition''\<rparr>]\<rparr>
   = Inl KeyError"
  by code_simp

subsection \<open>Exceptions in the loop\<close>

text \<open>
  C6, as the code has it. A row that does not have exactly two cells is passed over and
  changes nothing. An exception raised while an entity is fetched or parsed is not
  caught: the run ends with it at that entity, in the state that entity's
  \<^verbatim>\<open>get_parse_org\<close> left, and the entities after it are not processed in that run.
\<close>

theorem exception_ends_the_run:
  assumes "crawl net i pre w = (None, w1)"
      and "length (search (orgs_full w1) (org_id org)) = 0"
      and "get_parse_org net org (i + length pre)
             (if i + length pre > 0 \<and> (i + length pre) mod long_wait_gap = 0
              then w1\<lparr>trace := trace w1 @ [LongBreak]\<rparr> else w1) = (Some err, w2)"
  shows "crawl net i (pre @ org # rest) w = (Some err, w2) \<and>
         (\<forall>cells ct organization. length cells \<noteq> 2 \<longrightarrow>
            parse_row cells ct organization = Inr (ct, organization))"
proof -
  have "crawl net i (pre @ org # rest) w = (Some err, w2)"
    using assms by (simp add: crawl_append Let_def)
  moreover have "parse_row cells ct organization = Inr (ct, organization)"
    if "length cells \<noteq> 2" for cells ct organization
    using that by (auto simp: parse_row_def split: list.splits)
  ultimately show ?thesis by blast
qed

text \<open>
  An instance: the page of the first entity has no form, so the run ends there with
  \<^verbatim>\<open>IndexError\<close> and the second entity is left out; a row of one cell changes nothing.
\<close>

theorem exception_ends_the_run_witness:
  "crawl (\<lambda>x. Some \<lparr>status_code = 200, forms = []\<rparr>) 0 []
     \<lparr>org_ids = [], orgs_full = [], trace = []\<rparr>
     = (None, \<lparr>org_ids = [], orgs_full = [], trace = []\<rparr>) \<and>
   length (search (orgs_full \<lparr>org_ids = [], orgs_full = [], trace = []\<rparr>)
             (org_id \<lparr>org_name = ''A'', org_id = ''1''\<rparr>)) = 0 \<and>
   crawl (\<lambda>x. Some \<lparr>status_code = 200, forms = []\<rparr>) 0
     ([] @ \<lparr>org_name = ''A'', org_id = ''1''\<rparr> # [\<lparr>org_name = ''B'', org_id = ''2''\<rparr>])
     \<lparr>org_ids = [], orgs_full = [], trace = []\<rparr>
     = (Some IndexError, \<lparr>org_ids = [], orgs_full = [], trace = [Fetch ''1'']\<rparr>) \<and>
   parse_row [text_cell ''Contact''] ''hq'' [(''org_id'', Scalar ''1'')]
     = Inr (''hq'', [(''org_id'', Scalar ''1'')])"
proof -
  have h1: "crawl (\<lambda>x. Some \<lparr>status_code = 200, forms = []\<rparr>) 0 []
     \<lparr>org_ids = [], orgs_full = [], trace = []\<rparr>
     = (None, \<lparr>org_ids = [], orgs_full = [], trace = []\<rparr>)"
    by simp
  have h2: "length (search (orgs_full \<lparr>org_ids = [], orgs_full = [], trace = []\<rparr>)
             (org_id \<lparr>org_name = ''A'', org_id = ''1''\<rparr>)) = 0"
    by (simp add: search_def)
  have h3: "get_parse_org (\<lambda>x. Some \<lparr>status_code = 200, forms = []\<rparr>)
              \<lparr>org_name = ''A'', org_id = ''1''\<rparr> (0 + length ([] :: identity list))
              (if 0 + length ([] :: identity list) > 0 \<and>
                  (0 + length ([] :: identity list)) mod long_wait_gap = 0
               then \<lparr>org_ids = [], orgs_full = [], trace = []\<rparr>
                      \<lparr>trace := trace \<lparr>org_ids = [], orgs_full = [], trace = []\<rparr> @ [LongBreak]\<rparr>
               else \<lparr>org_ids = [], orgs_full = [], trace = []\<rparr>)
            = (Some IndexError, \<lparr>org_ids = [], orgs_full = [], trace = [Fetch ''1'']\<rparr>)"
    by (simp add: get_parse_org_def)
  note c = exception_ends_the_run [OF h1 h2 h3, of "[\<lparr>org_name = ''B'', org_id = ''2''\<rparr>]"]
  have c1: "crawl (\<lambda>x. Some \<lparr>status_code = 200, forms = []\<rparr>) 0
     ([] @ \<lparr>org_name = ''A'', org_id = ''1''\<rparr> # [\<lparr>org_name = ''B'', org_id = ''2''\<rparr>])
     \<lparr>org_ids = [], orgs_full = [], trace = []\<rparr>
     = (Some IndexError, \<lparr>org_ids = [], orgs_full = [], trace = [Fetch ''1'']\<rparr>)"
    using c by (rule conjunct1)
  have "length [text_cell ''Contact''] \<noteq> 2" by simp
  with c have c2: "parse_row [text_cell ''Contact''] ''hq'' [(''org_id'', Scalar ''1'')]
     = Inr (''hq'', [(''org_id'', Scalar ''1'')])"
    by blast
  show ?thesis
    by (rule conjI [OF h1 conjI [OF h2 conjI [OF c1 c2]]])
qed

text \<open>
  C6 as stated fails: the page of the first entity has a list item before any heading
  in its areas of expertise, the run ends with \<^verbatim>\<open>KeyError\<close>, and the second entity,
  whose page is well formed, is never fetched.
\<close>

theorem anomaly_aborts_run:
  "main None
     (\<lambda>x. if x = ''1''
           then Some \<lparr>status_code = 200,
                      forms = [[[[text_cell ''Areas of expertise & Fields of activity'',
                                  \<lparr>cell_text = ''Nutrition'',
                                   cell_elements = [\<lparr>el_name = LI, el_text = ''Nutrition''\<rparr>]\<rparr>]]]]\<rparr>
           else Some \<lparr>status_code = 200,
                      forms = [[[[text_cell ''Email'', text_cell ''a@b.org'']]]]\<rparr>)
     \<lparr>org_ids = [\<lparr>org_name = ''A'', org_id = ''1''\<rparr>, \<lparr>org_name = ''B'', org_id = ''2''\<rparr>],
      orgs_full = [], trace = []\<rparr>
   = (Some KeyError,
      \<lparr>org_ids = [\<lparr>org_name = ''A'', org_id = ''1''\<rparr>, \<lparr>org_name = ''B'', org_id = ''2''\<rparr>],
       orgs_full = [], trace = [Fetch ''1'']\<rparr>)"
  by code_simp

subsection \<open>Key cleaning and the faux headers\<close>

text \<open>
  C7. Key canonicalization maps "Telephone:  " to "telephone", "Fax Number" to
  "fax_number", "Year Founded YYYY" to "year_founded" (the trailing _yyyy removed), and
  "Email" to "preferred_email" in the preferred contact context and to "hq_email" in
  the hq context.
\<close>

theorem clean_key_examples:
  "clean_key ''Telephone:  '' (Some ''hq'') = Inr ''telephone'' \<and>
   clean_key ''Fax Number'' (Some ''hq'') = Inr ''fax_number'' \<and>
   clean_key ''Year Founded YYYY'' (Some ''hq'') = Inr ''year_founded'' \<and>
   clean_key ''Email'' (Some ''preferred'') = Inr ''preferred_email'' \<and>
   clean_key ''Email'' (Some ''hq'') = Inr ''hq_email''"
  by code_simp

text \<open>
  C8. A two-cell row whose cleaned key is one of the two faux headers
  (\<^verbatim>\<open>headquarters_address\<close>, \<^verbatim>\<open>preferred_mailing_address\<close>) leaves the organization as
  it was: no key is added and no value is stored for it. Hence the record built from a
  page never has that key.
\<close>

theorem faux_header_row_suppressed:
  assumes "key_clean (cell_text key_raw) \<in> set faux_contact_headers"
  shows "parse_row [key_raw, value_raw] contact_type organization =
           Inr (if cell_text key_raw = ''Preferred mailing address'' then ''preferred''
                else contact_type, organization) \<and>
         (\<forall>tables v result.
            parse_tables tables [(''org_id'', v)] = Inr result \<longrightarrow>
            map_of result (key_clean (cell_text key_raw)) = None)"
proof -
  have "key_clean (cell_text key_raw) \<notin> set contact_keys"
    using assms by (auto simp: contact_keys_def faux_contact_headers_def)
  then have "clean_key (cell_text key_raw) (Some ct) = Inr (key_clean (cell_text key_raw))" for ct
    by (simp add: clean_key_def)
  with assms have row: "parse_row [key_raw, value_raw] contact_type organization =
           Inr (if cell_text key_raw = ''Preferred mailing address'' then ''preferred''
                else contact_type, organization)"
    by (simp add: parse_row_def Let_def)
  have "key_clean (cell_text key_raw) \<noteq> ''org_id''"
    using assms by (auto simp: faux_contact_headers_def)
  then have base: "map_of [(''org_id'', v)] (key_clean (cell_text key_raw)) = None"
    for v :: field_value
    by simp
  have "map_of result (key_clean (cell_text key_raw)) = None"
    if p: "parse_tables tables [(''org_id'', v)] = Inr result" for tables v result
    by (rule parse_tables_keep_faux_absent [OF p assms base])
  with row show ?thesis by blast
qed

text \<open>
  An instance: the row labelled "Headquarters address" adds nothing, and a page made of
  that row and an Address row gives a record without the key \<^verbatim>\<open>headquarters_address\<close>.
\<close>

theorem faux_header_row_suppressed_witness:
  "key_clean (cell_text (text_cell ''Headquarters address'')) \<in> set faux_contact_headers \<and>
   parse_row [text_cell ''Headquarters address'', text_cell ''''] ''hq''
       [(''org_id'', Scalar ''1'')]
     = Inr (if cell_text (text_cell ''Headquarters address'') = ''Preferred mailing address''
            then ''preferred'' else ''hq'', [(''org_id'', Scalar ''1'')]) \<and>
   map_of [(''org_id'', Scalar ''1''), (''hq_address'', Scalar ''1 UN Plaza'')]
     (key_clean (cell_text (text_cell ''Headquarters address''))) = None"
proof -
  have h: "key_clean (cell_text (text_cell ''Headquarters address''))
             \<in> set faux_contact_headers"
    by code_simp
  note c = faux_header_row_suppressed [OF h]
  have c1: "parse_row [text_cell ''Headquarters address'', text_cell ''''] ''hq''
       [(''org_id'', Scalar ''1'')]
     = Inr (if cell_text (text_cell ''Headquarters address'') = ''Preferred mailing address''
            then ''preferred'' else ''hq'', [(''org_id'', Scalar ''1'')])"
    using c by (rule conjunct1)
  have p: "parse_tables
             [[[text_cell ''Headquarters address'', text_cell ''''],
               [text_cell ''Address'', text_cell ''1 UN Plaza'']]]
             [(''org_id'', Scalar ''1'')]
           = Inr [(''org_id'', Scalar ''1''), (''hq_address'', Scalar ''1 UN Plaza'')]"
    by code_simp
  from c [of "text_cell ''''" "''hq''" "[]"] p
  have c2: "map_of [(''org_id'', Scalar ''1''), (''hq_address'', Scalar ''1 UN Plaza'')]
     (key_clean (cell_text (text_cell ''Headquarters address''))) = None"
    by blast
  show ?thesis
    by (rule conjI [OF h conjI [OF c1 c2]])
qed

subsection \<open>Seeding\<close>

text \<open>
  C9. When the identities are still to be seeded and the selector for the results table
  matches nothing in the listing, the run ends with \<^verbatim>\<open>IndexError\<close> in
  \<^verbatim>\<open>generate_list\<close>: nothing has been fetched and no identity has been inserted.
\<close>

theorem missing_result_table_aborts:
  "org_ids w = [] \<Longrightarrow> main (Some []) net w = (Some IndexError, w)"
  by (simp add: main_def generate_list_def)

text \<open>An instance: both databases are empty.\<close>

theorem missing_result_table_aborts_witness:
  "org_ids \<lparr>org_ids = [], orgs_full = [], trace = []\<rparr> = [] \<and>
   main (Some [])
     (\<lambda>x. Some \<lparr>status_code = 200, forms = [[[[text_cell ''Email'', text_cell ''a@b.org'']]]]\<rparr>)
     \<lparr>org_ids = [], orgs_full = [], trace = []\<rparr>
   = (Some IndexError, \<lparr>org_ids = [], orgs_full = [], trace = []\<rparr>)"
proof -
  have h: "org_ids \<lparr>org_ids = [], orgs_full = [], trace = []\<rparr> = []" by simp
  from missing_result_table_aborts [OF h] have c: "main (Some [])
     (\<lambda>x. Some \<lparr>status_code = 200, forms = [[[[text_cell ''Email'', text_cell ''a@b.org'']]]]\<rparr>)
     \<lparr>org_ids = [], orgs_full = [], trace = []\<rparr>
   = (Some IndexError, \<lparr>org_ids = [], orgs_full = [], trace = []\<rparr>)" .
  show ?thesis by (rule conjI [OF h c])
qed

subsection \<open>Nothing is stored for an entity that failed\<close>

text \<open>
  C10. When \<^verbatim>\<open>get_parse_org\<close> ends with an exception, whether raised by the request, by
  the missing form or by the parsing of a row, the database of profiles is as it was:
  the insert is the last statement. So the search for the entity's id finds what it
  found before, and an entity that was incomplete is still incomplete.
\<close>

theorem failure_stores_nothing:
  "get_parse_org net org i w = (Some err, w') \<Longrightarrow>
   orgs_full w' = orgs_full w \<and> org_ids w' = org_ids w \<and>
   search (orgs_full w') (org_id org) = search (orgs_full w) (org_id org)"
  by (auto simp: get_parse_org_def Let_def split: option.splits list.splits sum.splits if_splits)

text \<open>An instance: the request for the entity raises.\<close>

theorem failure_stores_nothing_witness:
  "get_parse_org (\<lambda>x. None) \<lparr>org_name = ''A'', org_id = ''1''\<rparr> 0
     \<lparr>org_ids = [], orgs_full = [], trace = []\<rparr>
     = (Some RequestException, \<lparr>org_ids = [], orgs_full = [], trace = [Fetch ''1'']\<rparr>) \<and>
   orgs_full \<lparr>org_ids = [], orgs_full = [], trace = [Fetch ''1'']\<rparr>
     = orgs_full \<lparr>org_ids = [], orgs_full = [], trace = []\<rparr> \<and>
   org_ids \<lparr>org_ids = [], orgs_full = [], trace = [Fetch ''1'']\<rparr>
     = org_ids \<lparr>org_ids = [], orgs_full = [], trace = []\<rparr> \<and>
   search (orgs_full \<lparr>org_ids = [], orgs_full = [], trace = [Fetch ''1'']\<rparr>)
       (org_id \<lparr>org_name = ''A'', org_id = ''1''\<rparr>)
     = search (orgs_full \<lparr>org_ids = [], orgs_full = [], trace = []\<rparr>)
         (org_id \<lparr>org_name = ''A'', org_id = ''1''\<rparr>)"
proof -
  have h: "get_parse_org (\<lambda>x. None) \<lparr>org_name = ''A'', org_id = ''1''\<rparr> 0
     \<lparr>org_ids = [], orgs_full = [], trace = []\<rparr>
     = (Some RequestException, \<lparr>org_ids = [], orgs_full = [], trace = [Fetch ''1'']\<rparr>)"
    by (simp add: get_parse_org_def)
  show ?thesis by (rule conjI [OF h failure_stores_nothing [OF h]])
qed

end
